theory Spec2Isabelle
  imports Complex_Main
begin

section \<open>Data model of train_classifier.py\<close>

text \<open>
  The script works on numpy arrays and pandas frames of class labels and on
  floating point scores. Labels are integers. Scores are idealised as real
  numbers (no rounding); the one non-number that the script can produce, the
  float \<open>nan\<close>, is a value of its own.
\<close>

datatype error = IndexError | ValueError

datatype npfloat = NaN | Num real

text \<open>A two-dimensional array: its \<open>shape\<close> and its rows.\<close>

record 'a ndarray =
  shape :: "nat \<times> nat"
  rows :: "'a list list"

text \<open>A frame carries column names and a row index around its \<open>.values\<close>.\<close>

record 'a dataframe =
  columns :: "string list"
  index :: "int list"
  df_values :: "'a ndarray"

text \<open>What a caller may pass as \<open>y_true\<close> or \<open>y_pred\<close>.\<close>

datatype labels = Frame "int dataframe" | Array "int ndarray"

definition wf_array :: "'a ndarray \<Rightarrow> bool" where
  "wf_array a \<longleftrightarrow>
     length (rows a) = fst (shape a) \<and> list_all (\<lambda>r. length r = snd (shape a)) (rows a)"

text \<open>\<open>a[:, j]\<close>: the slice raises IndexError when \<open>j\<close> is out of bounds.\<close>

definition col :: "'a ndarray \<Rightarrow> nat \<Rightarrow> 'a list" where
  "col a j = map (\<lambda>r. r ! j) (rows a)"

definition column :: "'a ndarray \<Rightarrow> nat \<Rightarrow> error + 'a list" where
  "column a j = (if j < snd (shape a) then Inr (col a j) else Inl IndexError)"

section \<open>Library routines used by the scorer\<close>

text \<open>
  Modelled from the spec: \<open>sklearn.metrics.fbeta_score(..., average='weighted')\<close>
  is a library routine that is not part of the repository. The spec (4.7, step 1)
  describes it: per-class F-beta scores within the column are averaged, weighted
  by each class's support (sample count); if a class has zero predicted or zero
  true members (division by zero), that class's contribution is treated as zero
  rather than raising.
\<close>

definition true_sum :: "int \<Rightarrow> int list \<Rightarrow> nat" where
  "true_sum c yt = length (filter (\<lambda>t. t = c) yt)"

definition pred_sum :: "int \<Rightarrow> int list \<Rightarrow> nat" where
  "pred_sum c yp = length (filter (\<lambda>p. p = c) yp)"

definition tp_sum :: "int \<Rightarrow> int list \<Rightarrow> int list \<Rightarrow> nat" where
  "tp_sum c yt yp = length (filter (\<lambda>(t, p). t = c \<and> p = c) (zip yt yp))"

definition prf_divide :: "real \<Rightarrow> real \<Rightarrow> real" where
  "prf_divide n d = (if d = 0 then 0 else n / d)"

definition precision :: "int \<Rightarrow> int list \<Rightarrow> int list \<Rightarrow> real" where
  "precision c yt yp = prf_divide (real (tp_sum c yt yp)) (real (pred_sum c yp))"

definition recall :: "int \<Rightarrow> int list \<Rightarrow> int list \<Rightarrow> real" where
  "recall c yt yp = prf_divide (real (tp_sum c yt yp)) (real (true_sum c yt))"

definition class_fbeta :: "real \<Rightarrow> int \<Rightarrow> int list \<Rightarrow> int list \<Rightarrow> real" where
  "class_fbeta \<beta> c yt yp =
     (let p = precision c yt yp; r = recall c yt yp
      in prf_divide ((1 + \<beta>\<^sup>2) * p * r) (\<beta>\<^sup>2 * p + r))"

definition unique_labels :: "int list \<Rightarrow> int list \<Rightarrow> int list" where
  "unique_labels yt yp = sort (remdups (yt @ yp))"

definition weighted_fbeta :: "int list \<Rightarrow> int list \<Rightarrow> real \<Rightarrow> real" where
  "weighted_fbeta yt yp \<beta> =
     (let cs = unique_labels yt yp;
          support = sum_list (map (\<lambda>c. real (true_sum c yt)) cs)
      in prf_divide (sum_list (map (\<lambda>c. class_fbeta \<beta> c yt yp * real (true_sum c yt)) cs))
           support)"

definition fbeta_score :: "int list \<Rightarrow> int list \<Rightarrow> real \<Rightarrow> error + real" where
  "fbeta_score yt yp \<beta> =
     (if length yt \<noteq> length yp then Inl ValueError else Inr (weighted_fbeta yt yp \<beta>))"

text \<open>
  Modelled from the spec: \<open>scipy.stats.mstats.gmean\<close> is a library routine that is
  not part of the repository. The spec (4.7, steps 4 and 5): the geometric mean is the
  product of the values raised to the power 1/count, and it is undefined when no
  value remains.
\<close>

definition gmean :: "real list \<Rightarrow> npfloat" where
  "gmean xs = (if xs = [] then NaN else Num (prod_list xs powr (1 / real (length xs))))"

section \<open>The scorer: multioutput_fscore\<close>

text \<open>\<open>isinstance(y, pd.DataFrame)\<close> replaces a frame by its \<open>.values\<close>.\<close>

fun as_array :: "labels \<Rightarrow> int ndarray" where
  "as_array (Frame d) = df_values d"
| "as_array (Array a) = a"

text \<open>The loop over \<open>range(0, y_true.shape[1])\<close>, appending to \<open>score_list\<close>.\<close>

fun score_columns ::
  "int ndarray \<Rightarrow> int ndarray \<Rightarrow> real \<Rightarrow> nat list \<Rightarrow> real list \<Rightarrow> error + real list" where
  "score_columns y_true y_pred \<beta> [] score_list = Inr score_list"
| "score_columns y_true y_pred \<beta> (j # js) score_list =
     (case column y_true j of
        Inl e \<Rightarrow> Inl e
      | Inr t \<Rightarrow>
          (case column y_pred j of
             Inl e \<Rightarrow> Inl e
           | Inr p \<Rightarrow>
               (case fbeta_score t p \<beta> of
                  Inl e \<Rightarrow> Inl e
                | Inr score \<Rightarrow> score_columns y_true y_pred \<beta> js (score_list @ [score]))))"

text \<open>Lines 131 to 133: keep the scores below 1, then take the geometric mean.\<close>

definition aggregate :: "real list \<Rightarrow> npfloat" where
  "aggregate score_list = gmean (filter (\<lambda>s. s < 1) score_list)"

definition multioutput_fscore :: "labels \<Rightarrow> labels \<Rightarrow> real \<Rightarrow> error + npfloat" where
  "multioutput_fscore y_true y_pred \<beta> =
     (let y_pred' = as_array y_pred;
          y_true' = as_array y_true
      in case score_columns y_true' y_pred' \<beta> [0..<snd (shape y_true')] [] of
           Inl e \<Rightarrow> Inl e
         | Inr score_list \<Rightarrow> Inr (aggregate score_list))"

section \<open>The starting-verb feature\<close>

text \<open>
  NLTK's sentence splitter, word tokenizer, lemmatizer and part-of-speech tagger are
  collaborators outside the repository; the embedding takes them as parameters.
\<close>

record nlp =
  sent_tokenize :: "string \<Rightarrow> string list"
  word_tokenize :: "string \<Rightarrow> string list"
  lemmatize :: "string \<Rightarrow> string"
  pos_tag :: "string list \<Rightarrow> (string \<times> string) list"

text \<open>\<open>str.lower\<close> and \<open>str.strip\<close>, on the ASCII range.\<close>

definition lower_char :: "char \<Rightarrow> char" where
  "lower_char c =
     (let n = (of_char c :: nat) in if 65 \<le> n \<and> n \<le> 90 then char_of (n + 32) else c)"

definition lower :: "string \<Rightarrow> string" where
  "lower s = map lower_char s"

definition is_space :: "char \<Rightarrow> bool" where
  "is_space c \<longleftrightarrow> (let n = (of_char c :: nat) in n = 32 \<or> (9 \<le> n \<and> n \<le> 13) \<or> (28 \<le> n \<and> n \<le> 31))"

definition strip :: "string \<Rightarrow> string" where
  "strip s = rev (dropWhile is_space (rev (dropWhile is_space s)))"

definition tokenize :: "nlp \<Rightarrow> string \<Rightarrow> string list" where
  "tokenize N text =
     map (\<lambda>token. strip (lower (lemmatize N token))) (word_tokenize N text)"

text \<open>
  The loop over \<open>sentence_list\<close>. \<open>pos_tags[0]\<close> raises IndexError when the
  sentence has no token.
\<close>

fun starting_verb_loop :: "nlp \<Rightarrow> string list \<Rightarrow> error + bool" where
  "starting_verb_loop N [] = Inr False"
| "starting_verb_loop N (sentence # sentence_list) =
     (case pos_tag N (tokenize N sentence) of
        [] \<Rightarrow> Inl IndexError
      | (first_word, first_tag) # _ \<Rightarrow>
          if first_tag \<in> set [''VB'', ''VBP''] \<or> first_word = ''RT'' then Inr True
          else starting_verb_loop N sentence_list)"

definition starting_verb :: "nlp \<Rightarrow> string \<Rightarrow> error + bool" where
  "starting_verb N text = starting_verb_loop N (sent_tokenize N text)"

text \<open>
  A stand-in for NLTK on the text \<open>RT breaking news\<close>: one sentence, three words,
  each its own lemma, none of them tagged as a verb in base or present form; and no
  sentence for the empty text.
\<close>

definition nltk_sample :: nlp where
  "nltk_sample =
     \<lparr> sent_tokenize = (\<lambda>text. if text = [] then [] else [text]),
       word_tokenize = (\<lambda>text. if text = ''RT breaking news''
                                then [''RT'', ''breaking'', ''news''] else [text]),
       lemmatize = (\<lambda>token. token),
       pos_tag = (\<lambda>tokens. map (\<lambda>t. (t, if t = ''breaking'' then ''VBG'' else ''NN'')) tokens) \<rparr>"

section \<open>The evaluator: evaluate_model\<close>

text \<open>What \<open>print\<close> writes to standard output, one value per call.\<close>

datatype line =
    Text string
  | Rule
  | CategoryReport string string
  | OverallAccuracy npfloat
  | F1Score npfloat

text \<open>\<open>numpy\<close>'s mean of no value is \<open>nan\<close>; pandas skips \<open>nan\<close> entries.\<close>

definition np_mean :: "real list \<Rightarrow> npfloat" where
  "np_mean xs = (if xs = [] then NaN else Num (sum_list xs / real (length xs)))"

fun dropna :: "npfloat list \<Rightarrow> real list" where
  "dropna [] = []"
| "dropna (NaN # xs) = dropna xs"
| "dropna (Num x # xs) = x # dropna xs"

definition series_mean :: "npfloat list \<Rightarrow> npfloat" where
  "series_mean xs = np_mean (dropna xs)"

fun percent :: "npfloat \<Rightarrow> npfloat" where
  "percent NaN = NaN"
| "percent (Num x) = Num (x * 100)"

text \<open>\<open>y_pred == y_test\<close>: cell by cell, a frame of booleans; shapes must agree.\<close>

definition frame_eq :: "int ndarray \<Rightarrow> int dataframe \<Rightarrow> error + bool dataframe" where
  "frame_eq y_pred y_test =
     (if shape y_pred \<noteq> shape (df_values y_test) then Inl ValueError
      else Inr \<lparr> columns = columns y_test, index = index y_test,
                 df_values = \<lparr> shape = shape y_pred,
                               rows = map2 (\<lambda>p t. map2 (\<lambda>a b. a = b) p t)
                                        (rows y_pred) (rows (df_values y_test)) \<rparr> \<rparr>)"

text \<open>\<open>DataFrame.mean()\<close>: the mean of every column.\<close>

definition frame_mean :: "bool dataframe \<Rightarrow> npfloat list" where
  "frame_mean d =
     map (\<lambda>j. np_mean (map of_bool (col (df_values d) j))) [0..<snd (shape (df_values d))]"

definition overall_accuracy :: "int ndarray \<Rightarrow> int dataframe \<Rightarrow> error + npfloat" where
  "overall_accuracy y_pred y_test =
     (case frame_eq y_pred y_test of
        Inl e \<Rightarrow> Inl e
      | Inr d \<Rightarrow> Inr (series_mean (frame_mean d)))"

text \<open>
  The spec's wording of the overall accuracy (4.8): the mean, over every
  (sample, label) cell, of an exact-match indicator between predicted and true values.
\<close>

definition cell_indicators :: "int ndarray \<Rightarrow> int ndarray \<Rightarrow> real list" where
  "cell_indicators y_pred y_test =
     concat (map2 (\<lambda>p t. map2 (\<lambda>a b. if a = b then 1 else 0) p t) (rows y_pred) (rows y_test))"

definition cell_accuracy :: "int ndarray \<Rightarrow> int ndarray \<Rightarrow> npfloat" where
  "cell_accuracy y_pred y_test = np_mean (cell_indicators y_pred y_test)"

text \<open>
  The fitted model's \<open>predict\<close> and sklearn's \<open>classification_report\<close> are
  collaborators; so are the steps of \<open>main\<close> that touch the database, the
  random split, the learner and the pickle file.
\<close>

record ('m, 'x) env =
  load_data :: "string \<Rightarrow> error + ('x \<times> int dataframe \<times> string list)"
  train_test_split :: "'x \<Rightarrow> int dataframe \<Rightarrow> 'x \<times> 'x \<times> int dataframe \<times> int dataframe"
  build_model :: "'m"
  fit :: "'m \<Rightarrow> 'x \<Rightarrow> int dataframe \<Rightarrow> error + 'm"
  predict :: "'m \<Rightarrow> 'x \<Rightarrow> error + int ndarray"
  classification_report :: "int list \<Rightarrow> int list \<Rightarrow> error + string"
  pickle_dump :: "'m \<Rightarrow> string \<Rightarrow> error + unit"

text \<open>
  The loop over \<open>range(len(category_names))\<close>: each round prints a rule and the
  category's report. The arguments of the second \<open>print\<close> are evaluated before it
  writes, so when a column slice or \<open>classification_report\<close> raises, only the rule
  of that round has been printed. The function returns what was printed and either
  the exception that ended it or \<open>None\<close>.
\<close>

fun report_categories ::
  "('m, 'x) env \<Rightarrow> int dataframe \<Rightarrow> int ndarray \<Rightarrow> string list \<Rightarrow> nat list \<Rightarrow> line list
     \<Rightarrow> line list \<times> (error + unit)" where
  "report_categories E y_test y_pred category_names [] out = (out, Inr ())"
| "report_categories E y_test y_pred category_names (i # is) out =
     (case column (df_values y_test) i of
        Inl e \<Rightarrow> (out @ [Rule], Inl e)
      | Inr t \<Rightarrow>
          (case column y_pred i of
             Inl e \<Rightarrow> (out @ [Rule], Inl e)
           | Inr p \<Rightarrow>
               (case classification_report E t p of
                  Inl e \<Rightarrow> (out @ [Rule], Inl e)
                | Inr report \<Rightarrow>
                    report_categories E y_test y_pred category_names is
                      (out @ [Rule, CategoryReport (category_names ! i) report]))))"

definition evaluate_model ::
  "('m, 'x) env \<Rightarrow> 'm \<Rightarrow> 'x \<Rightarrow> int dataframe \<Rightarrow> string list \<Rightarrow> line list \<times> (error + unit)" where
  "evaluate_model E model X_test y_test category_names =
     (case predict E model X_test of
        Inl e \<Rightarrow> ([], Inl e)
      | Inr y_pred \<Rightarrow>
          (case report_categories E y_test y_pred category_names
                  [0..<length category_names] [] of
             (out, Inl e) \<Rightarrow> (out, Inl e)
           | (out, Inr _) \<Rightarrow>
               (case multioutput_fscore (Frame y_test) (Array y_pred) 1 of
                  Inl e \<Rightarrow> (out, Inl e)
                | Inr multioutput_f1 \<Rightarrow>
                    (case overall_accuracy y_pred y_test of
                       Inl e \<Rightarrow> (out, Inl e)
                     | Inr acc \<Rightarrow>
                         (out @ [OverallAccuracy (percent acc), F1Score (percent multioutput_f1)],
                          Inr ())))))"

section \<open>The entry point: main\<close>

datatype effect =
    Print line
  | LoadData string
  | SplitData
  | BuildModel
  | FitModel
  | EvaluateModel
  | SaveModel string

definition usage :: string where
  "usage = ''Please provide the filepath of the disaster messages database '' @
           ''as the first argument and the filepath of the pickle file to '' @
           ''save the model to as the second argument. '' @ [CHR 0x0A, CHR 0x0A] @
           ''Example: python train_classifier.py ../data/DisasterResponse.db classifier.pkl''"

definition main :: "('m, 'x) env \<Rightarrow> string list \<Rightarrow> effect list \<times> (error + unit)" where
  "main E argv =
     (if length argv = 3 then
        (let database_filepath = argv ! 1;
             model_filepath = argv ! 2;
             tr1 = [Print (Text (''Loading data...'' @ [CHR 0x0A] @ ''    DATABASE: '' @ database_filepath)),
                    LoadData database_filepath]
         in case load_data E database_filepath of
              Inl e \<Rightarrow> (tr1, Inl e)
            | Inr (X, y, category_names) \<Rightarrow>
                (case train_test_split E X y of
                   (X_train, X_test, y_train, y_test) \<Rightarrow>
                     (let tr2 = tr1 @ [SplitData, Print (Text ''Building model...''), BuildModel,
                                       Print (Text ''Training model...''), FitModel]
                      in case fit E (build_model E) X_train y_train of
                           Inl e \<Rightarrow> (tr2, Inl e)
                         | Inr model \<Rightarrow>
                             (case evaluate_model E model X_test y_test category_names of
                                (out, r) \<Rightarrow>
                                  (let tr3 = tr2 @ [Print (Text ''Evaluating model...''), EvaluateModel]
                                                 @ map Print out
                                   in case r of
                                        Inl e \<Rightarrow> (tr3, Inl e)
                                      | Inr _ \<Rightarrow>
                                          (let tr4 = tr3 @
                                                 [Print (Text (''Saving model...'' @ [CHR 0x0A] @
                                                               ''    MODEL: '' @ model_filepath)),
                                                  SaveModel model_filepath]
                                           in case pickle_dump E model model_filepath of
                                                Inl e \<Rightarrow> (tr4, Inl e)
                                              | Inr _ \<Rightarrow>
                                                  (tr4 @ [Print (Text ''Trained model saved!'')],
                                                   Inr ())))))))
      else ([Print (Text usage)], Inr ()))"

section \<open>Worked inputs\<close>

text \<open>Five samples, three labels: the columns score 0.8, 1 and 0.6.\<close>

definition example_true :: "int ndarray" where
  "example_true = \<lparr> shape = (5, 3),
       rows = [[0, 1, 0], [0, 0, 0], [0, 1, 0], [1, 0, 0], [1, 1, 1]] \<rparr>"

definition example_pred :: "int ndarray" where
  "example_pred = \<lparr> shape = (5, 3),
       rows = [[0, 1, 0], [0, 0, 0], [1, 1, 0], [1, 0, 1], [1, 1, 0]] \<rparr>"

text \<open>Two samples scored against themselves; three samples with one wrong prediction.\<close>

definition perfect_true :: "int ndarray" where
  "perfect_true = \<lparr> shape = (2, 2), rows = [[1, 0], [0, 0]] \<rparr>"

definition skewed_true :: "int ndarray" where
  "skewed_true = \<lparr> shape = (3, 1), rows = [[0], [0], [0]] \<rparr>"

definition skewed_pred :: "int ndarray" where
  "skewed_pred = \<lparr> shape = (3, 1), rows = [[0], [0], [1]] \<rparr>"

text \<open>
  A test partition of three samples and one category, and stand-ins for the
  collaborators of the evaluator and of the entry point.
\<close>

definition sample_test :: "int dataframe" where
  "sample_test = \<lparr> columns = [''related''], index = [0, 1, 2], df_values = skewed_true \<rparr>"

definition sample_env :: "(unit, unit) env" where
  "sample_env =
     \<lparr> load_data = (\<lambda>path. Inr ((), sample_test, [''related''])),
       train_test_split = (\<lambda>X y. ((), (), y, y)),
       build_model = (),
       fit = (\<lambda>model X y. Inr ()),
       predict = (\<lambda>model X. Inr skewed_pred),
       classification_report =
         (\<lambda>t p. if length t \<noteq> length p \<or> t = [] then Inl ValueError else Inr ''report''),
       pickle_dump = (\<lambda>model path. Inr ()) \<rparr>"

section \<open>Properties of the scorer\<close>

lemma tp_le_pred: "tp_sum c yt yp \<le> pred_sum c yp"
  unfolding tp_sum_def pred_sum_def
proof (induction yt yp rule: list_induct2')
  case (4 x xs y ys)
  then show ?case by auto
qed auto

lemma tp_le_true: "tp_sum c yt yp \<le> true_sum c yt"
  unfolding tp_sum_def true_sum_def
proof (induction yt yp rule: list_induct2')
  case (4 x xs y ys)
  then show ?case by auto
qed auto

lemma prf_divide_unit: "0 \<le> n \<Longrightarrow> n \<le> d \<Longrightarrow> 0 \<le> prf_divide n d \<and> prf_divide n d \<le> 1"
  by (auto simp: prf_divide_def divide_le_eq_1)

lemma precision_unit: "0 \<le> precision c yt yp \<and> precision c yt yp \<le> 1"
  unfolding precision_def by (rule prf_divide_unit) (simp_all add: tp_le_pred)

lemma recall_unit: "0 \<le> recall c yt yp \<and> recall c yt yp \<le> 1"
  unfolding recall_def by (rule prf_divide_unit) (simp_all add: tp_le_true)

lemma fbeta_formula_unit:
  fixes p r b :: real
  assumes "0 \<le> p" "p \<le> 1" "0 \<le> r" "r \<le> 1"
  shows "0 \<le> prf_divide ((1 + b\<^sup>2) * p * r) (b\<^sup>2 * p + r)
       \<and> prf_divide ((1 + b\<^sup>2) * p * r) (b\<^sup>2 * p + r) \<le> 1"
proof (rule prf_divide_unit)
  show "0 \<le> (1 + b\<^sup>2) * p * r" using assms by simp
  have "p * r \<le> r" using assms by (simp add: mult_left_le_one_le)
  moreover have "b\<^sup>2 * (p * r) \<le> b\<^sup>2 * p"
    using assms by (intro mult_left_mono) (simp_all add: mult_right_le_one_le)
  ultimately show "(1 + b\<^sup>2) * p * r \<le> b\<^sup>2 * p + r"
    by (simp add: algebra_simps)
qed

lemma class_fbeta_unit: "0 \<le> class_fbeta \<beta> c yt yp \<and> class_fbeta \<beta> c yt yp \<le> 1"
  unfolding class_fbeta_def Let_def
  using precision_unit [of c yt yp] recall_unit [of c yt yp]
  by (intro fbeta_formula_unit) simp_all

lemma weighted_sum_bounds:
  fixes f w :: "'a \<Rightarrow> real"
  assumes "\<And>c. 0 \<le> f c \<and> f c \<le> 1" "\<And>c. 0 \<le> w c"
  shows "0 \<le> sum_list (map (\<lambda>c. f c * w c) cs)
       \<and> sum_list (map (\<lambda>c. f c * w c) cs) \<le> sum_list (map w cs)"
proof (induction cs)
  case (Cons c cs)
  have "f c * w c \<le> w c" using assms by (simp add: mult_left_le_one_le)
  moreover have "0 \<le> f c * w c" using assms by simp
  ultimately show ?case using Cons by simp
qed simp

lemma weighted_fbeta_unit: "0 \<le> weighted_fbeta yt yp \<beta> \<and> weighted_fbeta yt yp \<beta> \<le> 1"
  unfolding weighted_fbeta_def Let_def
  by (rule prf_divide_unit)
     (use weighted_sum_bounds [of "\<lambda>c. class_fbeta \<beta> c yt yp" "\<lambda>c. real (true_sum c yt)"]
          class_fbeta_unit in auto)


lemma column_in_range: "j < snd (shape a) \<Longrightarrow> column a j = Inr (col a j)"
  by (simp add: column_def)

lemma length_col: "length (col a j) = length (rows a)"
  by (simp add: col_def)

lemma score_columns_run:
  assumes "length (rows y_true) = length (rows y_pred)"
      and "shape y_true = shape y_pred"
      and "\<forall>j \<in> set js. j < snd (shape y_true)"
  shows "score_columns y_true y_pred \<beta> js score_list =
           Inr (score_list @ map (\<lambda>j. weighted_fbeta (col y_true j) (col y_pred j) \<beta>) js)"
  using assms(3)
proof (induction js arbitrary: score_list)
  case Nil
  show ?case by simp
next
  case (Cons j js)
  have j: "j < snd (shape y_true)" "j < snd (shape y_pred)"
    using Cons.prems assms(2) by simp_all
  have "fbeta_score (col y_true j) (col y_pred j) \<beta>
          = Inr (weighted_fbeta (col y_true j) (col y_pred j) \<beta>)"
    by (simp add: fbeta_score_def length_col assms(1))
  with j Cons show ?case
    by (simp add: column_in_range)
qed

lemma scorer_run:
  assumes "wf_array (as_array y_true)" "wf_array (as_array y_pred)"
      and "shape (as_array y_true) = shape (as_array y_pred)"
  shows "multioutput_fscore y_true y_pred \<beta> =
           Inr (aggregate (map (\<lambda>j. weighted_fbeta (col (as_array y_true) j)
                                       (col (as_array y_pred) j) \<beta>)
                              [0..<snd (shape (as_array y_true))]))"
proof -
  have "length (rows (as_array y_true)) = length (rows (as_array y_pred))"
    using assms by (simp add: wf_array_def)
  from score_columns_run [OF this assms(3), of "[0..<snd (shape (as_array y_true))]" \<beta> "[]"]
  show ?thesis by (simp add: multioutput_fscore_def Let_def)
qed

lemma prod_list_unit:
  fixes xs :: "real list"
  shows "\<forall>x \<in> set xs. 0 \<le> x \<and> x \<le> 1 \<Longrightarrow> 0 \<le> prod_list xs \<and> prod_list xs \<le> 1"
  by (induction xs) (auto simp: mult_le_one)

lemma gmean_unit:
  assumes "xs \<noteq> []" "\<forall>x \<in> set xs. 0 \<le> x \<and> x \<le> 1"
  shows "\<exists>v. gmean xs = Num v \<and> 0 \<le> v \<and> v \<le> 1"
  using assms prod_list_unit [OF assms(2)]
  by (simp add: gmean_def powr_le1)

lemma below_one_filter:
  fixes xs :: "real list"
  shows "\<forall>x \<in> set xs. x \<le> 1 \<Longrightarrow> filter (\<lambda>s. s < 1) xs = filter (\<lambda>s. s \<noteq> 1) xs"
  by (rule filter_cong) auto

lemma sqrt_048: "(0.48::real) powr (1 / 2) = sqrt 0.48"
  by (simp add: powr_half_sqrt)

lemma sqrt_048_approx: "\<bar>sqrt 0.48 - 0.693\<bar> < (0.001::real)"
proof -
  have lo: "(0.692::real) < sqrt 0.48"
    by (rule real_less_rsqrt) (simp add: power2_eq_square)
  have hi: "sqrt 0.48 < (0.694::real)"
    by (rule real_less_lsqrt) (simp_all add: power2_eq_square)
  from lo hi show ?thesis by linarith
qed

text \<open>
  C1. For label matrices of equal shape, the scorer computes one support-weighted
  F-beta score per label column, removes every score equal to 1 and returns the
  geometric mean of the rest; the scores 0.8, 1.0, 0.6 give the square root of 0.48,
  about 0.693.
\<close>

theorem multioutput_fscore_spec:
  assumes "wf_array (as_array y_true)" "wf_array (as_array y_pred)"
      and "shape (as_array y_true) = shape (as_array y_pred)"
  shows "multioutput_fscore y_true y_pred \<beta> =
           Inr (gmean (filter (\<lambda>s. s \<noteq> 1)
                  (map (\<lambda>j. weighted_fbeta (col (as_array y_true) j) (col (as_array y_pred) j) \<beta>)
                       [0..<snd (shape (as_array y_true))])))
       \<and> aggregate [0.8, 1.0, 0.6] = Num (sqrt 0.48)
       \<and> \<bar>sqrt 0.48 - 0.693\<bar> < (0.001::real)"
proof -
  let ?scores = "map (\<lambda>j. weighted_fbeta (col (as_array y_true) j) (col (as_array y_pred) j) \<beta>)
                       [0..<snd (shape (as_array y_true))]"
  have "\<forall>x \<in> set ?scores. x \<le> 1"
    using weighted_fbeta_unit by auto
  then have "filter (\<lambda>s. s < 1) ?scores = filter (\<lambda>s. s \<noteq> 1) ?scores"
    by (rule below_one_filter)
  then have "multioutput_fscore y_true y_pred \<beta> = Inr (gmean (filter (\<lambda>s. s \<noteq> 1) ?scores))"
    using scorer_run [OF assms] by (simp add: aggregate_def)
  moreover have "aggregate [0.8, 1.0, 0.6] = Num (sqrt 0.48)"
    using sqrt_048 by (simp add: aggregate_def gmean_def)
  ultimately show ?thesis using sqrt_048_approx by simp
qed


lemma upt3: "[0..<3] = [0, 1, 2]"
  by (simp add: upt_rec)

lemma ex_scores:
  "map (\<lambda>j. weighted_fbeta (col example_true j) (col example_pred j) 1) [0..<3] = [0.8, 1, 0.6]"
  by (simp add: upt3 example_true_def example_pred_def col_def weighted_fbeta_def unique_labels_def
        class_fbeta_def precision_def recall_def tp_sum_def pred_sum_def true_sum_def prf_divide_def)

theorem multioutput_fscore_spec_witness:
  "wf_array (as_array (Array example_true)) \<and> wf_array (as_array (Array example_pred))
   \<and> shape (as_array (Array example_true)) = shape (as_array (Array example_pred))
   \<and> multioutput_fscore (Array example_true) (Array example_pred) 1 = Inr (Num (sqrt 0.48))"
proof -
  have wf: "wf_array (as_array (Array example_true))" "wf_array (as_array (Array example_pred))"
    by (simp_all add: wf_array_def example_true_def example_pred_def)
  have sh: "shape (as_array (Array example_true)) = shape (as_array (Array example_pred))"
    by (simp add: example_true_def example_pred_def)
  have k: "snd (shape example_true) = 3" by (simp add: example_true_def)
  from multioutput_fscore_spec [OF wf sh, of 1] wf sh show ?thesis
    using ex_scores sqrt_048 by (simp add: k gmean_def)
qed

lemma upt2: "[0..<2] = [0, 1]"
  by (simp add: upt_rec)

text \<open>
  C2. When every per-label weighted F-beta score equals 1, the filter removes all
  K scores and the value returned is \<open>nan\<close>, not a score: there is no fallback.
\<close>

theorem all_perfect_undefined:
  assumes "wf_array (as_array y_true)" "wf_array (as_array y_pred)"
      and "shape (as_array y_true) = shape (as_array y_pred)"
      and "\<forall>j < snd (shape (as_array y_true)).
             weighted_fbeta (col (as_array y_true) j) (col (as_array y_pred) j) \<beta> = 1"
  shows "\<exists>score_list.
           score_columns (as_array y_true) (as_array y_pred) \<beta>
             [0..<snd (shape (as_array y_true))] [] = Inr score_list
         \<and> length score_list = snd (shape (as_array y_true))
         \<and> filter (\<lambda>s. s < 1) score_list = []
         \<and> multioutput_fscore y_true y_pred \<beta> = Inr NaN"
proof -
  let ?K = "snd (shape (as_array y_true))"
  let ?scores = "map (\<lambda>j. weighted_fbeta (col (as_array y_true) j) (col (as_array y_pred) j) \<beta>)
                   [0..<?K]"
  have len: "length (rows (as_array y_true)) = length (rows (as_array y_pred))"
    using assms(1-3) by (simp add: wf_array_def)
  have run: "score_columns (as_array y_true) (as_array y_pred) \<beta> [0..<?K] [] = Inr ?scores"
    using score_columns_run [OF len assms(3), of "[0..<?K]" \<beta> "[]"] by simp
  have none: "filter (\<lambda>s. s < 1) ?scores = []"
    using assms(4) by (simp add: filter_empty_conv)
  have "multioutput_fscore y_true y_pred \<beta> = Inr NaN"
    using scorer_run [OF assms(1-3), of \<beta>] none by (simp add: aggregate_def gmean_def)
  with run none show ?thesis by simp
qed

theorem all_perfect_undefined_witness:
  "wf_array (as_array (Array perfect_true))
   \<and> weighted_fbeta (col perfect_true 0) (col perfect_true 0) 1 = 1
   \<and> weighted_fbeta (col perfect_true 1) (col perfect_true 1) 1 = 1
   \<and> multioutput_fscore (Array perfect_true) (Array perfect_true) 1 = Inr NaN"
proof -
  have wf: "wf_array (as_array (Array perfect_true))"
    by (simp add: wf_array_def perfect_true_def)
  have s: "map (\<lambda>j. weighted_fbeta (col perfect_true j) (col perfect_true j) 1) [0..<2] = [1, 1]"
    by (simp add: upt2 perfect_true_def col_def weighted_fbeta_def unique_labels_def
          class_fbeta_def precision_def recall_def tp_sum_def pred_sum_def true_sum_def
          prf_divide_def)
  then have one: "\<forall>j < snd (shape (as_array (Array perfect_true))).
         weighted_fbeta (col (as_array (Array perfect_true)) j)
           (col (as_array (Array perfect_true)) j) 1 = 1"
    by (simp add: perfect_true_def upt2 less_Suc_eq numeral_2_eq_2)
  have "weighted_fbeta (col perfect_true 0) (col perfect_true 0) 1 = 1"
       "weighted_fbeta (col perfect_true 1) (col perfect_true 1) 1 = 1"
    using s by (simp_all add: upt2)
  with all_perfect_undefined [OF wf wf refl one] wf show ?thesis by blast
qed

lemma true_sum_pos: "0 < true_sum d t \<longleftrightarrow> d \<in> set t"
  by (auto simp: true_sum_def filter_empty_conv)

lemma pred_sum_pos: "0 < pred_sum d p \<longleftrightarrow> d \<in> set p"
  by (auto simp: pred_sum_def filter_empty_conv)

lemma set_unique_labels: "set (unique_labels t p) = set t \<union> set p"
  by (simp add: unique_labels_def)

lemma zero_count_class_fbeta:
  assumes "pred_sum c p = 0 \<or> true_sum c t = 0"
  shows "class_fbeta \<beta> c t p = 0"
proof -
  have "tp_sum c t p = 0"
    using assms tp_le_pred [of c t p] tp_le_true [of c t p] by auto
  then show ?thesis
    by (simp add: class_fbeta_def precision_def recall_def prf_divide_def)
qed

lemma sum_list_drop_zero:
  fixes g :: "'a \<Rightarrow> real"
  assumes "g c = 0"
  shows "sum_list (map g (filter (\<lambda>d. d \<noteq> c) cs)) = sum_list (map g cs)"
  using assms by (induction cs) auto

lemma tp_lt_true:
  "(d, y) \<in> set (zip t p) \<Longrightarrow> y \<noteq> d \<Longrightarrow> tp_sum d t p < true_sum d t"
proof (induction t p rule: list_induct2')
  case (4 x xs z zs)
  have tail: "tp_sum d xs zs \<le> true_sum d xs" by (rule tp_le_true)
  show ?case
  proof (cases "(d, y) = (x, z)")
    case True
    with 4 tail show ?thesis by (simp add: tp_sum_def true_sum_def)
  next
    case False
    have "tp_sum d xs zs < true_sum d xs" using 4 False by auto
    then show ?thesis by (simp add: tp_sum_def true_sum_def)
  qed
qed simp_all

lemma recall_below_one: "tp_sum d t p < true_sum d t \<Longrightarrow> recall d t p < 1"
  by (simp add: recall_def prf_divide_def)

lemma fbeta_formula_strict:
  fixes p r b :: real
  assumes "0 \<le> p" "p \<le> 1" "0 \<le> r" "r < 1" "b \<noteq> 0"
  shows "prf_divide ((1 + b\<^sup>2) * p * r) (b\<^sup>2 * p + r) < 1"
proof (cases "b\<^sup>2 * p + r = 0")
  case True
  then show ?thesis by (simp add: prf_divide_def)
next
  case False
  have "0 \<le> b\<^sup>2 * p" using assms(1) by simp
  with False assms(3) have den: "0 < b\<^sup>2 * p + r" by linarith
  have "(1 + b\<^sup>2) * p * r < b\<^sup>2 * p + r"
  proof (cases "p = 0")
    case True
    with den show ?thesis by simp
  next
    case False
    then have "0 < b\<^sup>2 * p" using assms(1,5) by simp
    then have "b\<^sup>2 * p * r < b\<^sup>2 * p"
      using mult_strict_left_mono [of r 1 "b\<^sup>2 * p"] assms(4) by simp
    moreover have "p * r \<le> r" using assms by (simp add: mult_left_le_one_le)
    ultimately show ?thesis by (simp add: algebra_simps)
  qed
  with den show ?thesis by (simp add: prf_divide_def)
qed

lemma class_fbeta_below_one:
  assumes "\<beta> \<noteq> 0" "recall d t p < 1"
  shows "class_fbeta \<beta> d t p < 1"
  unfolding class_fbeta_def Let_def
  using precision_unit [of d t p] recall_unit [of d t p] assms
  by (intro fbeta_formula_strict) simp_all

lemma weighted_sum_strict:
  fixes f w :: "'a \<Rightarrow> real"
  assumes "\<And>c. 0 \<le> f c \<and> f c \<le> 1" "\<And>c. 0 \<le> w c"
      and "d \<in> set cs" "f d < 1" "0 < w d"
  shows "sum_list (map (\<lambda>c. f c * w c) cs) < sum_list (map w cs)"
  using assms(3)
proof (induction cs)
  case Nil
  then show ?case by simp
next
  case (Cons a cs)
  have head: "f a * w a \<le> w a" using assms(1,2) by (simp add: mult_left_le_one_le)
  have rest: "sum_list (map (\<lambda>c. f c * w c) cs) \<le> sum_list (map w cs)"
    using weighted_sum_bounds [of f w cs] assms(1,2) by simp
  show ?case
  proof (cases "a = d")
    case True
    have "f d * w d < w d" using assms(4,5) by simp
    with True rest show ?thesis by simp
  next
    case False
    with Cons have "sum_list (map (\<lambda>c. f c * w c) cs) < sum_list (map w cs)" by simp
    with head show ?thesis by simp
  qed
qed

lemma weighted_fbeta_below_one:
  assumes "length t = length p" "\<beta> \<noteq> 0" "c \<in> set t \<union> set p"
      and "pred_sum c p = 0 \<or> true_sum c t = 0"
  shows "weighted_fbeta t p \<beta> < 1"
proof -
  have "\<exists>d. d \<in> set t \<and> class_fbeta \<beta> d t p < 1"
  proof (cases "c \<in> set t")
    case True
    then have "true_sum c t \<noteq> 0" using true_sum_pos [of c t] by simp
    with assms(4) have "class_fbeta \<beta> c t p = 0"
      using zero_count_class_fbeta [of c p t \<beta>] by simp
    with True show ?thesis by force
  next
    case False
    with assms(3) have "c \<in> set p" by simp
    then obtain i where i: "i < length p" "p ! i = c" by (auto simp: in_set_conv_nth)
    with assms(1) have "(t ! i, c) \<in> set (zip t p)"
      by (auto simp: set_zip)
    moreover have ti: "t ! i \<in> set t" using i(1) assms(1) by simp
    then have "c \<noteq> t ! i" using False by auto
    ultimately have "tp_sum (t ! i) t p < true_sum (t ! i) t" by (rule tp_lt_true)
    then have "class_fbeta \<beta> (t ! i) t p < 1"
      using assms(2) by (intro class_fbeta_below_one recall_below_one)
    with ti show ?thesis by blast
  qed
  then obtain d where d: "d \<in> set t" "class_fbeta \<beta> d t p < 1" by blast
  let ?cs = "unique_labels t p"
  have "d \<in> set ?cs" using d(1) by (simp add: set_unique_labels)
  moreover have "0 < real (true_sum d t)" using d(1) true_sum_pos [of d t] by simp
  ultimately have lt: "sum_list (map (\<lambda>c. class_fbeta \<beta> c t p * real (true_sum c t)) ?cs)
                         < sum_list (map (\<lambda>c. real (true_sum c t)) ?cs)"
    using weighted_sum_strict [of "\<lambda>c. class_fbeta \<beta> c t p" "\<lambda>c. real (true_sum c t)" d ?cs]
          class_fbeta_unit d(2) by simp
  have "0 \<le> sum_list (map (\<lambda>c. class_fbeta \<beta> c t p * real (true_sum c t)) ?cs)"
    using weighted_sum_bounds [of "\<lambda>c. class_fbeta \<beta> c t p" "\<lambda>c. real (true_sum c t)" ?cs]
          class_fbeta_unit by simp
  with lt show ?thesis
    by (simp add: weighted_fbeta_def Let_def prf_divide_def)
qed

lemma aggregate_number:
  assumes "x \<in> set scores" "x < 1" "\<forall>s \<in> set scores. 0 \<le> s \<and> s \<le> 1"
  shows "\<exists>v. aggregate scores = Num v \<and> 0 \<le> v \<and> v \<le> 1"
proof -
  have "x \<in> set (filter (\<lambda>s. s < 1) scores)" using assms(1,2) by simp
  then have ne: "filter (\<lambda>s. s < 1) scores \<noteq> []" by (metis empty_iff list.set(1))
  have "\<forall>s \<in> set (filter (\<lambda>s. s < 1) scores). 0 \<le> s \<and> s \<le> 1" using assms(3) by simp
  from gmean_unit [OF ne this] show ?thesis by (simp add: aggregate_def)
qed

lemma aggregate_cases:
  assumes "\<forall>s \<in> set scores. 0 \<le> s \<and> s \<le> 1"
  shows "(\<exists>v. aggregate scores = Num v \<and> 0 \<le> v \<and> v \<le> 1)
       \<or> (aggregate scores = NaN \<and> list_all (\<lambda>s. s = 1) scores)"
proof (cases "\<exists>x \<in> set scores. x < 1")
  case True
  then show ?thesis using aggregate_number assms by blast
next
  case False
  then have all: "\<forall>s \<in> set scores. s = 1" using assms by force
  then have "filter (\<lambda>s. s < 1) scores = []" by (auto simp: filter_empty_conv)
  then have "aggregate scores = NaN" by (simp add: aggregate_def gmean_def)
  with all show ?thesis by (simp add: list_all_iff)
qed

text \<open>
  C3. Take a label column in which some class has no predicted member or no true
  member. The scorer's loop raises nothing: it yields one score per column. That
  class contributes zero to the column's score, which is the support-weighted sum
  over the other classes and lies between 0 and 1. The scorer returns the aggregate of
  the scores: a number between 0 and 1, or \<open>nan\<close> when every column scores 1. When
  the class occurs in the column and beta is not zero, the column scores below 1 and
  the scorer returns a number between 0 and 1.
\<close>

theorem scorer_zero_division:
  assumes "wf_array (as_array y_true)" "wf_array (as_array y_pred)"
      and "shape (as_array y_true) = shape (as_array y_pred)"
      and "j < snd (shape (as_array y_true))"
      and "t = col (as_array y_true) j" "p = col (as_array y_pred) j"
      and "pred_sum c p = 0 \<or> true_sum c t = 0"
  shows "\<exists>score_list r.
           score_columns (as_array y_true) (as_array y_pred) \<beta>
             [0..<snd (shape (as_array y_true))] [] = Inr score_list
         \<and> length score_list = snd (shape (as_array y_true))
         \<and> class_fbeta \<beta> c t p * real (true_sum c t) = 0
         \<and> score_list ! j =
             prf_divide
               (sum_list (map (\<lambda>d. class_fbeta \<beta> d t p * real (true_sum d t))
                            (filter (\<lambda>d. d \<noteq> c) (unique_labels t p))))
               (sum_list (map (\<lambda>d. real (true_sum d t)) (unique_labels t p)))
         \<and> 0 \<le> score_list ! j \<and> score_list ! j \<le> 1
         \<and> multioutput_fscore y_true y_pred \<beta> = Inr r
         \<and> r = aggregate score_list
         \<and> ((\<exists>v. r = Num v \<and> 0 \<le> v \<and> v \<le> 1) \<or> (r = NaN \<and> list_all (\<lambda>s. s = 1) score_list))
         \<and> (\<beta> \<noteq> 0 \<and> c \<in> set t \<union> set p \<longrightarrow> (\<exists>v. r = Num v \<and> 0 \<le> v \<and> v \<le> 1))"
proof -
  let ?K = "snd (shape (as_array y_true))"
  let ?scores = "map (\<lambda>i. weighted_fbeta (col (as_array y_true) i) (col (as_array y_pred) i) \<beta>)
                   [0..<?K]"
  have len: "length (rows (as_array y_true)) = length (rows (as_array y_pred))"
    using assms(1-3) by (simp add: wf_array_def)
  have run: "score_columns (as_array y_true) (as_array y_pred) \<beta> [0..<?K] [] = Inr ?scores"
    using score_columns_run [OF len assms(3), of "[0..<?K]" \<beta> "[]"] by simp
  have res: "multioutput_fscore y_true y_pred \<beta> = Inr (aggregate ?scores)"
    by (rule scorer_run [OF assms(1-3)])
  have zero: "class_fbeta \<beta> c t p = 0"
    by (rule zero_count_class_fbeta [OF assms(7)])
  have sj: "?scores ! j = weighted_fbeta t p \<beta>"
    using assms(4-6) by simp
  have drop: "weighted_fbeta t p \<beta> =
             prf_divide
               (sum_list (map (\<lambda>d. class_fbeta \<beta> d t p * real (true_sum d t))
                            (filter (\<lambda>d. d \<noteq> c) (unique_labels t p))))
               (sum_list (map (\<lambda>d. real (true_sum d t)) (unique_labels t p)))"
    using sum_list_drop_zero [of "\<lambda>d. class_fbeta \<beta> d t p * real (true_sum d t)" c
                                "unique_labels t p"] zero
    by (simp add: weighted_fbeta_def Let_def)
  have unit: "\<forall>s \<in> set ?scores. 0 \<le> s \<and> s \<le> 1"
    using weighted_fbeta_unit by auto
  have cases: "(\<exists>v. aggregate ?scores = Num v \<and> 0 \<le> v \<and> v \<le> 1)
             \<or> (aggregate ?scores = NaN \<and> list_all (\<lambda>s. s = 1) ?scores)"
    by (rule aggregate_cases [OF unit])
  have strict: "\<exists>v. aggregate ?scores = Num v \<and> 0 \<le> v \<and> v \<le> 1"
    if "\<beta> \<noteq> 0" "c \<in> set t \<union> set p"
  proof -
    have "length t = length p" using assms(5,6) len by (simp add: length_col)
    from weighted_fbeta_below_one [OF this that assms(7)]
    have "?scores ! j < 1" using sj by simp
    moreover have "?scores ! j \<in> set ?scores" using assms(4) by (intro nth_mem) simp
    ultimately show ?thesis using aggregate_number unit by blast
  qed
  have bounds: "0 \<le> ?scores ! j \<and> ?scores ! j \<le> 1"
    using sj weighted_fbeta_unit [of t p \<beta>] by simp
  have "length ?scores = ?K" by simp
  with run res zero sj drop bounds cases strict show ?thesis
    by (intro exI [of _ ?scores] exI [of _ "aggregate ?scores"]) (simp only: mult_zero_left, blast)
qed

theorem scorer_zero_division_witness:
  "wf_array (as_array (Array skewed_true)) \<and> wf_array (as_array (Array skewed_pred))
   \<and> shape (as_array (Array skewed_true)) = shape (as_array (Array skewed_pred))
   \<and> 0 < snd (shape (as_array (Array skewed_true)))
   \<and> true_sum 1 (col skewed_true 0) = 0
   \<and> 1 \<in> set (col skewed_pred 0)
   \<and> class_fbeta 1 1 (col skewed_true 0) (col skewed_pred 0) = 0
   \<and> (\<exists>v. multioutput_fscore (Array skewed_true) (Array skewed_pred) 1 = Inr (Num v)
          \<and> 0 \<le> v \<and> v \<le> 1)"
proof -
  have wf: "wf_array (as_array (Array skewed_true))" "wf_array (as_array (Array skewed_pred))"
    by (simp_all add: wf_array_def skewed_true_def skewed_pred_def)
  have sh: "shape (as_array (Array skewed_true)) = shape (as_array (Array skewed_pred))"
    by (simp add: skewed_true_def skewed_pred_def)
  have k: "0 < snd (shape (as_array (Array skewed_true)))" by (simp add: skewed_true_def)
  have z: "true_sum 1 (col skewed_true 0) = 0"
    by (simp add: true_sum_def col_def skewed_true_def)
  have m: "1 \<in> set (col skewed_pred 0)" by (simp add: col_def skewed_pred_def)
  have t: "col skewed_true 0 = col (as_array (Array skewed_true)) 0"
   and p: "col skewed_pred 0 = col (as_array (Array skewed_pred)) 0" by simp_all
  from scorer_zero_division [OF wf sh k t p disjI2 [OF z], of 1]
  obtain score_list r
    where "class_fbeta 1 1 (col skewed_true 0) (col skewed_pred 0)
             * real (true_sum 1 (col skewed_true 0)) = 0"
      and r: "multioutput_fscore (Array skewed_true) (Array skewed_pred) 1 = Inr r"
      and n: "(1::real) \<noteq> 0 \<and> 1 \<in> set (col skewed_true 0) \<union> set (col skewed_pred 0)
                \<longrightarrow> (\<exists>v. r = Num v \<and> 0 \<le> v \<and> v \<le> 1)"
    by blast
  from n m have "\<exists>v. r = Num v \<and> 0 \<le> v \<and> v \<le> 1" by simp
  with r have "\<exists>v. multioutput_fscore (Array skewed_true) (Array skewed_pred) 1 = Inr (Num v)
                  \<and> 0 \<le> v \<and> v \<le> 1" by blast
  moreover have "class_fbeta 1 1 (col skewed_true 0) (col skewed_pred 0) = 0"
    by (rule zero_count_class_fbeta [OF disjI2 [OF z]])
  ultimately show ?thesis using wf sh k z m by blast
qed

text \<open>
  C4. For label matrices of equal shape whose per-label scores are not all equal
  to 1, the aggregate value is a number in the closed interval from 0 to 1.
\<close>

theorem aggregate_in_unit_interval:
  assumes "wf_array (as_array y_true)" "wf_array (as_array y_pred)"
      and "shape (as_array y_true) = shape (as_array y_pred)"
      and "\<exists>j < snd (shape (as_array y_true)).
             weighted_fbeta (col (as_array y_true) j) (col (as_array y_pred) j) \<beta> \<noteq> 1"
  shows "\<exists>v. multioutput_fscore y_true y_pred \<beta> = Inr (Num v) \<and> 0 \<le> v \<and> v \<le> 1"
proof -
  let ?K = "snd (shape (as_array y_true))"
  let ?scores = "map (\<lambda>j. weighted_fbeta (col (as_array y_true) j) (col (as_array y_pred) j) \<beta>)
                   [0..<?K]"
  from assms(4) obtain j where j: "j < ?K"
    "weighted_fbeta (col (as_array y_true) j) (col (as_array y_pred) j) \<beta> \<noteq> 1"
    by blast
  have "weighted_fbeta (col (as_array y_true) j) (col (as_array y_pred) j) \<beta> < 1"
    using j(2) weighted_fbeta_unit [of "col (as_array y_true) j" "col (as_array y_pred) j" \<beta>]
    by linarith
  with j(1) have "weighted_fbeta (col (as_array y_true) j) (col (as_array y_pred) j) \<beta>
                    \<in> set (filter (\<lambda>s. s < 1) ?scores)"
    by auto
  then have ne: "filter (\<lambda>s. s < 1) ?scores \<noteq> []"
    by (metis empty_iff list.set(1))
  have "\<forall>x \<in> set (filter (\<lambda>s. s < 1) ?scores). 0 \<le> x \<and> x \<le> 1"
    using weighted_fbeta_unit by auto
  from gmean_unit [OF ne this] scorer_run [OF assms(1-3), of \<beta>]
  show ?thesis by (simp add: aggregate_def)
qed

theorem aggregate_in_unit_interval_witness:
  "wf_array (as_array (Array skewed_true)) \<and> wf_array (as_array (Array skewed_pred))
   \<and> shape (as_array (Array skewed_true)) = shape (as_array (Array skewed_pred))
   \<and> weighted_fbeta (col skewed_true 0) (col skewed_pred 0) 1 \<noteq> 1
   \<and> (\<exists>v. multioutput_fscore (Array skewed_true) (Array skewed_pred) 1 = Inr (Num v)
          \<and> 0 \<le> v \<and> v \<le> 1)"
proof -
  have wf: "wf_array (as_array (Array skewed_true))" "wf_array (as_array (Array skewed_pred))"
    by (simp_all add: wf_array_def skewed_true_def skewed_pred_def)
  have sh: "shape (as_array (Array skewed_true)) = shape (as_array (Array skewed_pred))"
    by (simp add: skewed_true_def skewed_pred_def)
  have s: "weighted_fbeta (col skewed_true 0) (col skewed_pred 0) 1 = 0.8"
    by (simp add: skewed_true_def skewed_pred_def col_def weighted_fbeta_def unique_labels_def
          class_fbeta_def precision_def recall_def tp_sum_def pred_sum_def true_sum_def
          prf_divide_def)
  have ne: "weighted_fbeta (col skewed_true 0) (col skewed_pred 0) 1 \<noteq> 1"
    by (simp add: s)
  have ex: "\<exists>j < snd (shape (as_array (Array skewed_true))).
              weighted_fbeta (col (as_array (Array skewed_true)) j)
                (col (as_array (Array skewed_pred)) j) 1 \<noteq> 1"
    using ne by (simp add: skewed_true_def)
  from aggregate_in_unit_interval [OF wf sh ex] wf sh ne show ?thesis by blast
qed

text \<open>
  C10. The scorer returns the same value whether an input is given as a frame or as
  the frame's underlying array; column names and row index play no part.
\<close>

theorem scorer_container_independent:
  "multioutput_fscore (Frame d) (Frame e) \<beta>
     = multioutput_fscore (Array (df_values d)) (Array (df_values e)) \<beta>
   \<and> multioutput_fscore (Frame d) (Array b) \<beta>
     = multioutput_fscore (Array (df_values d)) (Array b) \<beta>
   \<and> multioutput_fscore (Array a) (Frame e) \<beta>
     = multioutput_fscore (Array a) (Array (df_values e)) \<beta>
   \<and> multioutput_fscore y_true y_pred \<beta>
     = multioutput_fscore (Array (as_array y_true)) (Array (as_array y_pred)) \<beta>"
  by (simp add: multioutput_fscore_def)

section \<open>Properties of the starting-verb feature\<close>

lemma lower_char_not_R: "lower_char c \<noteq> CHR ''R''"
proof
  assume a: "lower_char c = CHR ''R''"
  then have "(of_char (lower_char c) :: nat) = 82" by simp
  then show False
    by (auto simp: lower_char_def Let_def split: if_splits)
qed

lemma R_not_in_lower: "CHR ''R'' \<notin> set (lower s)"
proof
  assume "CHR ''R'' \<in> set (lower s)"
  then obtain c where "lower_char c = CHR ''R''"
    by (auto simp: lower_def)
  then show False using lower_char_not_R by blast
qed

lemma set_strip: "set (strip s) \<subseteq> set s"
proof -
  have "set (strip s) \<subseteq> set (rev (dropWhile is_space s))"
    unfolding strip_def using set_dropWhileD by fastforce
  also have "\<dots> \<subseteq> set s"
    using set_dropWhileD by fastforce
  finally show ?thesis .
qed

lemma clean_token_not_RT: "strip (lower s) \<noteq> ''RT''"
proof
  assume "strip (lower s) = ''RT''"
  then have "CHR ''R'' \<in> set (strip (lower s))" by simp
  then show False using set_strip R_not_in_lower by blast
qed

lemma tokenize_not_RT: "w \<in> set (tokenize N sentence) \<Longrightarrow> w \<noteq> ''RT''"
  using clean_token_not_RT by (auto simp: tokenize_def)

text \<open>
  C5. The claim says that a sentence whose leading token is the literal marker
  \<open>RT\<close> yields true. The code compares the leading token with \<open>RT\<close> after
  \<open>tokenize\<close> has lower-cased it, so the comparison never holds: for a one-sentence
  text whose leading tag is neither VB nor VBP the result is false, whatever the
  leading word was. The tagger is only assumed to return the words it was given.
\<close>

theorem starting_verb_marker_unreachable:
  assumes "\<forall>tokens. map fst (pos_tag N tokens) = tokens"
      and "sent_tokenize N text = [sentence]"
      and "pos_tag N (tokenize N sentence) = (first_word, first_tag) # rest"
      and "first_tag \<notin> set [''VB'', ''VBP'']"
  shows "first_word \<noteq> ''RT'' \<and> starting_verb N text = Inr False"
proof -
  have "map fst (pos_tag N (tokenize N sentence)) = tokenize N sentence"
    using assms(1) by blast
  then have "first_word \<in> set (tokenize N sentence)"
    using assms(3) by (metis list.set_intros(1) list.simps(9) fst_conv)
  then have "first_word \<noteq> ''RT''" by (rule tokenize_not_RT)
  then show ?thesis
    using assms(2-4) by (simp add: starting_verb_def)
qed

lemma sample_tokens:
  "tokenize nltk_sample ''RT breaking news'' = [''rt'', ''breaking'', ''news'']"
  by code_simp

theorem starting_verb_marker_unreachable_witness:
  "sent_tokenize nltk_sample ''RT breaking news'' = [''RT breaking news'']
   \<and> pos_tag nltk_sample (tokenize nltk_sample ''RT breaking news'')
       = (''rt'', ''NN'') # [(''breaking'', ''VBG''), (''news'', ''NN'')]
   \<and> starting_verb nltk_sample ''RT breaking news'' = Inr False"
proof -
  have p: "\<forall>tokens. map fst (pos_tag nltk_sample tokens) = tokens"
    by (simp add: nltk_sample_def comp_def)
  have s: "sent_tokenize nltk_sample ''RT breaking news'' = [''RT breaking news'']"
    by (simp add: nltk_sample_def)
  have t: "pos_tag nltk_sample (tokenize nltk_sample ''RT breaking news'')
             = (''rt'', ''NN'') # [(''breaking'', ''VBG''), (''news'', ''NN'')]"
    by (simp add: sample_tokens) (simp add: nltk_sample_def)
  have v: "''NN'' \<notin> set [''VB'', ''VBP'']" by simp
  from starting_verb_marker_unreachable [OF p s t v] s t show ?thesis by simp
qed

text \<open>
  C9. For a text whose sentence segmentation yields no sentence (the empty text,
  when the segmenter returns nothing for it), the loop body never runs and the
  predicate returns false.
\<close>

theorem starting_verb_no_sentence:
  "sent_tokenize N text = [] \<Longrightarrow> starting_verb N text = Inr False"
  by (simp add: starting_verb_def)

theorem starting_verb_no_sentence_witness:
  "sent_tokenize nltk_sample [] = [] \<and> starting_verb nltk_sample [] = Inr False"
proof -
  have s: "sent_tokenize nltk_sample [] = []" by (simp add: nltk_sample_def)
  from starting_verb_no_sentence [OF s] s show ?thesis by simp
qed

section \<open>Properties of the evaluator\<close>

lemma sum_list_nth_row:
  fixes f :: "'a \<Rightarrow> real"
  shows "sum_list (map (\<lambda>j. f (r ! j)) [0..<length r]) = sum_list (map f r)"
proof -
  have "map (\<lambda>j. f (r ! j)) [0..<length r] = map f (map (\<lambda>j. r ! j) [0..<length r])"
    by simp
  then show ?thesis by (simp only: map_nth)
qed

lemma column_sums_swap:
  fixes f :: "'a \<Rightarrow> real"
  assumes "list_all (\<lambda>r. length r = K) B"
  shows "sum_list (map (\<lambda>j. sum_list (map (\<lambda>r. f (r ! j)) B)) [0..<K])
           = sum_list (map (\<lambda>r. sum_list (map f r)) B)"
  using assms
proof (induction B)
  case Nil
  show ?case by simp
next
  case (Cons r B)
  then have len: "length r = K" and rest: "list_all (\<lambda>r. length r = K) B" by simp_all
  have "sum_list (map (\<lambda>j. sum_list (map (\<lambda>r. f (r ! j)) (r # B))) [0..<K])
          = sum_list (map (\<lambda>j. f (r ! j)) [0..<K])
            + sum_list (map (\<lambda>j. sum_list (map (\<lambda>r. f (r ! j)) B)) [0..<K])"
    by (simp add: sum_list_addf)
  also have "sum_list (map (\<lambda>j. f (r ! j)) [0..<K]) = sum_list (map f r)"
    using sum_list_nth_row [of f r] len by simp
  finally show ?case using Cons.IH [OF rest] by simp
qed

lemma sum_list_divide_const:
  fixes g :: "'a \<Rightarrow> real"
  shows "sum_list (map (\<lambda>x. g x / c) xs) = sum_list (map g xs) / c"
  by (induction xs) (simp_all add: add_divide_distrib)

lemma dropna_Num: "dropna (map (\<lambda>j. Num (g j)) js) = map g js"
  by (induction js) simp_all

lemma dropna_NaN: "dropna (map (\<lambda>j. NaN) js) = []"
  by (induction js) simp_all

lemma length_concat_rows:
  "list_all (\<lambda>r. length r = K) B \<Longrightarrow> length (concat (map (map f) B)) = length B * K"
  by (induction B) simp_all

lemma sum_list_cells:
  fixes f :: "'a \<Rightarrow> real"
  shows "sum_list (concat (map (map f) B)) = sum_list (map (\<lambda>r. sum_list (map f r)) B)"
  by (induction B) simp_all

lemma mean_of_column_means:
  fixes f :: "'a \<Rightarrow> real"
  assumes "list_all (\<lambda>r. length r = K) B"
  shows "series_mean (map (\<lambda>j. np_mean (map (\<lambda>r. f (r ! j)) B)) [0..<K])
           = np_mean (concat (map (map f) B))"
proof (cases "B = []")
  case True
  then show ?thesis
    by (simp add: series_mean_def np_mean_def dropna_NaN)
next
  case False
  let ?N = "real (length B)"
  have N: "?N \<noteq> 0" using False by simp
  have cols: "map (\<lambda>j. np_mean (map (\<lambda>r. f (r ! j)) B)) [0..<K]
                = map (\<lambda>j. Num (sum_list (map (\<lambda>r. f (r ! j)) B) / ?N)) [0..<K]"
    using False by (simp add: np_mean_def)
  have swap: "sum_list (map (\<lambda>j. sum_list (map (\<lambda>r. f (r ! j)) B)) [0..<K])
                = sum_list (concat (map (map f) B))"
    using column_sums_swap [OF assms, of f] by (simp only: sum_list_cells)
  have len: "length (concat (map (map f) B)) = length B * K"
    by (rule length_concat_rows [OF assms])
  show ?thesis
  proof (cases "K = 0")
    case True
    then show ?thesis
      using len by (simp add: series_mean_def np_mean_def)
  next
    case K: False
    have ne: "concat (map (map f) B) \<noteq> []"
      using len K False by (metis length_0_conv mult_is_0)
    have "series_mean (map (\<lambda>j. np_mean (map (\<lambda>r. f (r ! j)) B)) [0..<K])
            = np_mean (map (\<lambda>j. sum_list (map (\<lambda>r. f (r ! j)) B) / ?N) [0..<K])"
      by (simp only: cols series_mean_def dropna_Num)
    also have "\<dots> = Num (sum_list (map (\<lambda>j. sum_list (map (\<lambda>r. f (r ! j)) B) / ?N) [0..<K])
                          / real K)"
      using K by (simp add: np_mean_def)
    also have "\<dots> = Num (sum_list (concat (map (map f) B)) / ?N / real K)"
      by (simp only: sum_list_divide_const swap)
    also have "\<dots> = np_mean (concat (map (map f) B))"
      using ne by (simp add: np_mean_def len)
    finally show ?thesis .
  qed
qed

lemma eq_rows_wf:
  assumes "list_all (\<lambda>r. length r = K) P" "list_all (\<lambda>r. length r = K) T"
  shows "list_all (\<lambda>r. length r = K) (map2 (\<lambda>p t. map2 f p t) P T)"
  using assms by (induction P T rule: list_induct2') simp_all

lemma map2_map2_map:
  "map (map g) (map2 (\<lambda>p t. map2 f p t) P T) = map2 (\<lambda>p t. map2 (\<lambda>a b. g (f a b)) p t) P T"
  by (simp add: split_def)

lemma overall_accuracy_is_cell_mean_aux:
  assumes "wf_array y_pred" "wf_array (df_values y_test)"
      and "shape y_pred = shape (df_values y_test)"
  shows "overall_accuracy y_pred y_test = Inr (cell_accuracy y_pred (df_values y_test))"
proof -
  let ?K = "snd (shape y_pred)"
  let ?E = "map2 (\<lambda>p t. map2 (\<lambda>a b. a = b) p t) (rows y_pred) (rows (df_values y_test))"
  have rowsP: "list_all (\<lambda>r. length r = ?K) (rows y_pred)"
    using assms(1) by (simp add: wf_array_def)
  have rowsT: "list_all (\<lambda>r. length r = ?K) (rows (df_values y_test))"
    using assms(2,3) by (simp add: wf_array_def)
  have wfE: "list_all (\<lambda>r. length r = ?K) ?E"
    by (rule eq_rows_wf [OF rowsP rowsT])
  have cells: "concat (map (map of_bool) ?E) = cell_indicators y_pred (df_values y_test)"
    unfolding cell_indicators_def map2_map2_map
    by (simp add: of_bool_def)
  have "overall_accuracy y_pred y_test
          = Inr (series_mean (map (\<lambda>j. np_mean (map (\<lambda>r. of_bool (r ! j)) ?E)) [0..<?K]))"
    using assms(3)
    by (simp add: overall_accuracy_def frame_eq_def frame_mean_def col_def comp_def)
  also have "\<dots> = Inr (np_mean (concat (map (map of_bool) ?E)))"
    by (simp only: mean_of_column_means [OF wfE])
  finally show ?thesis
    by (simp only: cells cell_accuracy_def)
qed

text \<open>
  C6. The overall accuracy that the evaluator computes, the mean of the column
  means of the frame \<open>y_pred == y_test\<close>, is the mean over every (sample, label)
  cell of the indicator that the predicted value equals the true value; both are
  \<open>nan\<close> when there is no cell.
\<close>

theorem overall_accuracy_is_cell_mean:
  assumes "wf_array y_pred" "wf_array (df_values y_test)"
      and "shape y_pred = shape (df_values y_test)"
  shows "overall_accuracy y_pred y_test = Inr (cell_accuracy y_pred (df_values y_test))"
  by (rule overall_accuracy_is_cell_mean_aux [OF assms])

lemma sample_wf:
  "wf_array skewed_pred" "wf_array (df_values sample_test)"
  "shape skewed_pred = shape (df_values sample_test)"
  by (simp_all add: wf_array_def skewed_pred_def skewed_true_def sample_test_def)

theorem overall_accuracy_is_cell_mean_witness:
  "wf_array skewed_pred \<and> wf_array (df_values sample_test)
   \<and> shape skewed_pred = shape (df_values sample_test)
   \<and> overall_accuracy skewed_pred sample_test = Inr (Num (2 / 3))"
proof -
  have "cell_accuracy skewed_pred (df_values sample_test) = Num (2 / 3)"
    by (simp add: cell_accuracy_def cell_indicators_def np_mean_def skewed_pred_def
          skewed_true_def sample_test_def)
  with overall_accuracy_is_cell_mean [OF sample_wf] sample_wf show ?thesis by simp
qed

lemma report_categories_run:
  assumes "shape y_pred = shape (df_values y_test)"
      and "\<forall>i \<in> set is. i < snd (shape y_pred)"
      and "\<forall>i \<in> set is. classification_report E (col (df_values y_test) i) (col y_pred i)
                           = Inr (reports i)"
  shows "report_categories E y_test y_pred category_names is out =
           (out @ concat (map (\<lambda>i. [Rule, CategoryReport (category_names ! i) (reports i)]) is),
            Inr ())"
  using assms(2,3)
proof (induction "is" arbitrary: out)
  case Nil
  show ?case by simp
next
  case (Cons i "is")
  have "i < snd (shape y_pred)" "i < snd (shape (df_values y_test))"
    using Cons.prems assms(1) by simp_all
  moreover have "classification_report E (col (df_values y_test) i) (col y_pred i)
                   = Inr (reports i)"
    using Cons.prems by simp
  ultimately show ?case using Cons by (simp add: column_in_range)
qed

lemma report_categories_report_raises:
  assumes "i < snd (shape (df_values y_test))" "i < snd (shape y_pred)"
      and "classification_report E (col (df_values y_test) i) (col y_pred i) = Inl e"
  shows "report_categories E y_test y_pred category_names (i # is) out = (out @ [Rule], Inl e)"
  using assms by (simp add: column_in_range)

text \<open>
  C7, as amended. On a non-empty test partition whose truth frame and prediction
  array are well formed and of equal shape, with one category name per label column
  and a report call that succeeds for every category, the evaluator prints to standard
  output, category by category, a rule and the category's report, then the overall
  accuracy and the aggregate score as percentages, and returns \<open>None\<close>: it
  builds no bundle.
\<close>

theorem evaluate_model_prints:
  assumes "predict E model X_test = Inr y_pred"
      and "wf_array y_pred" "wf_array (df_values y_test)"
      and "shape y_pred = shape (df_values y_test)"
      and "length category_names = snd (shape y_pred)"
      and "0 < fst (shape y_pred)"
      and "\<forall>i < length category_names.
             classification_report E (col (df_values y_test) i) (col y_pred i) = Inr (reports i)"
  shows "\<exists>acc f1.
           overall_accuracy y_pred y_test = Inr acc
         \<and> multioutput_fscore (Frame y_test) (Array y_pred) 1 = Inr f1
         \<and> evaluate_model E model X_test y_test category_names =
             (concat (map (\<lambda>i. [Rule, CategoryReport (category_names ! i) (reports i)])
                        [0..<length category_names])
                @ [OverallAccuracy (percent acc), F1Score (percent f1)],
              Inr ())"
proof -
  have acc: "overall_accuracy y_pred y_test = Inr (cell_accuracy y_pred (df_values y_test))"
    by (rule overall_accuracy_is_cell_mean_aux [OF assms(2-4)])
  have "wf_array (as_array (Frame y_test))" "wf_array (as_array (Array y_pred))"
       "shape (as_array (Frame y_test)) = shape (as_array (Array y_pred))"
    using assms(2-4) by simp_all
  from scorer_run [OF this, of 1] obtain f1
    where f1: "multioutput_fscore (Frame y_test) (Array y_pred) 1 = Inr f1" by blast
  have rng: "\<forall>i \<in> set [0..<length category_names]. i < snd (shape y_pred)"
    using assms(5) by simp
  have rep: "\<forall>i \<in> set [0..<length category_names].
               classification_report E (col (df_values y_test) i) (col y_pred i) = Inr (reports i)"
    using assms(7) by simp
  from report_categories_run [OF assms(4) rng rep, of category_names "[]"]
  have "evaluate_model E model X_test y_test category_names =
          (concat (map (\<lambda>i. [Rule, CategoryReport (category_names ! i) (reports i)])
                     [0..<length category_names])
             @ [OverallAccuracy (percent (cell_accuracy y_pred (df_values y_test))),
                F1Score (percent f1)],
           Inr ())"
    by (simp add: evaluate_model_def assms(1) acc f1)
  with acc f1 show ?thesis by blast
qed

lemma sample_f1:
  "multioutput_fscore (Frame sample_test) (Array skewed_pred) 1 = Inr (Num 0.8)"
proof -
  have s: "weighted_fbeta (col skewed_true 0) (col skewed_pred 0) 1 = 0.8"
    by (simp add: skewed_true_def skewed_pred_def col_def weighted_fbeta_def unique_labels_def
          class_fbeta_def precision_def recall_def tp_sum_def pred_sum_def true_sum_def
          prf_divide_def)
  have k: "snd (shape skewed_true) = 1" by (simp add: skewed_true_def)
  have "wf_array (as_array (Frame sample_test))" "wf_array (as_array (Array skewed_pred))"
       "shape (as_array (Frame sample_test)) = shape (as_array (Array skewed_pred))"
    using sample_wf by simp_all
  from scorer_run [OF this, of 1] show ?thesis
    by (simp add: sample_test_def k s aggregate_def gmean_def)
qed

lemma sample_accuracy: "overall_accuracy skewed_pred sample_test = Inr (Num (2 / 3))"
proof -
  have "cell_accuracy skewed_pred (df_values sample_test) = Num (2 / 3)"
    by (simp add: cell_accuracy_def cell_indicators_def np_mean_def skewed_pred_def
          skewed_true_def sample_test_def)
  with overall_accuracy_is_cell_mean_aux [OF sample_wf] show ?thesis by simp
qed

lemma sample_run:
  "evaluate_model sample_env () () sample_test [''related''] =
     ([Rule, CategoryReport ''related'' ''report'', OverallAccuracy (Num (200 / 3)),
       F1Score (Num 80)], Inr ())"
proof -
  have c: "column (df_values sample_test) 0 = Inr (col skewed_true 0)"
          "column skewed_pred 0 = Inr (col skewed_pred 0)"
    by (simp_all add: column_def sample_test_def skewed_true_def skewed_pred_def)
  show ?thesis
    by (simp add: evaluate_model_def sample_env_def c sample_f1 sample_accuracy)
       (simp add: col_def skewed_true_def skewed_pred_def)
qed

theorem evaluate_model_prints_witness:
  "predict sample_env () () = Inr skewed_pred
   \<and> wf_array skewed_pred \<and> wf_array (df_values sample_test)
   \<and> shape skewed_pred = shape (df_values sample_test)
   \<and> length [''related''] = snd (shape skewed_pred)
   \<and> 0 < fst (shape skewed_pred)
   \<and> classification_report sample_env (col (df_values sample_test) 0) (col skewed_pred 0)
       = Inr ''report''
   \<and> evaluate_model sample_env () () sample_test [''related''] =
         ([Rule, CategoryReport ''related'' ''report'', OverallAccuracy (Num (200 / 3)),
           F1Score (Num 80)], Inr ())"
proof -
  have p: "predict sample_env () () = Inr skewed_pred" by (simp add: sample_env_def)
  have l: "length [''related''] = snd (shape skewed_pred)" by (simp add: skewed_pred_def)
  have n: "0 < fst (shape skewed_pred)" by (simp add: skewed_pred_def)
  have r0: "classification_report sample_env (col (df_values sample_test) 0) (col skewed_pred 0)
              = Inr ''report''"
    by (simp add: sample_env_def sample_test_def col_def skewed_true_def skewed_pred_def)
  then have r: "\<forall>i < length [''related''].
             classification_report sample_env (col (df_values sample_test) i) (col skewed_pred i)
               = Inr ((\<lambda>i. ''report'') i)"
    by simp
  from evaluate_model_prints [OF p sample_wf l n r] obtain acc f1
    where a: "overall_accuracy skewed_pred sample_test = Inr acc"
      and f: "multioutput_fscore (Frame sample_test) (Array skewed_pred) 1 = Inr f1"
      and e: "evaluate_model sample_env () () sample_test [''related''] =
                ([Rule, CategoryReport ''related'' ''report'', OverallAccuracy (percent acc),
                  F1Score (percent f1)], Inr ())"
    by auto
  have "acc = Num (2 / 3)" using a sample_accuracy by simp
  moreover have "f1 = Num 0.8" using f sample_f1 by simp
  ultimately show ?thesis using e p sample_wf l n r0 by simp
qed

text \<open>
  C7, as stated, fails: on a test set of three samples and one category the
  evaluator writes four values to standard output and returns \<open>None\<close>.
\<close>

theorem evaluate_model_output_counterexample:
  "fst (evaluate_model sample_env () () sample_test [''related'']) \<noteq> []
   \<and> snd (evaluate_model sample_env () () sample_test [''related'']) = Inr ()"
  by (simp add: sample_run)

section \<open>Properties of the entry point\<close>

text \<open>
  C8. When the argument count differs from the script name plus two arguments, the
  entry point prints the usage text and does nothing else: no data is loaded, no
  model is built, fitted, evaluated or saved.
\<close>

theorem main_wrong_argument_count:
  "length argv \<noteq> 3 \<Longrightarrow> main E argv = ([Print (Text usage)], Inr ())"
  by (simp add: main_def)

theorem main_wrong_argument_count_witness:
  "length [''train_classifier.py''] \<noteq> 3
   \<and> main sample_env [''train_classifier.py''] = ([Print (Text usage)], Inr ())"
proof -
  have l: "length [''train_classifier.py''] \<noteq> 3" by simp
  from main_wrong_argument_count [OF l, of sample_env] l show ?thesis by simp
qed

end
